theory Spec2Isabelle
  imports Complex_Main "HOL-Library.Word"
begin

section \<open>JavaScript strings\<close>

text \<open>
  A JavaScript string is a sequence of UTF-16 code units. \<open>text.split('')\<close>,
  \<open>charCodeAt(0)\<close>, the character classes of a regular expression without the
  \<open>u\<close> flag and \<open>trim()\<close> all work on code units, so a string is a list of
  16-bit words. \<open>js\<close> writes an ASCII literal of the source as such a list.
\<close>

type_synonym char16 = "16 word"
type_synonym jstring = "char16 list"

definition js :: "string \<Rightarrow> jstring" where
  "js s = map of_char s"

text \<open>\<open>s.startsWith(p)\<close> and \<open>s.endsWith(p)\<close>.\<close>

definition startsWith :: "jstring \<Rightarrow> jstring \<Rightarrow> bool" where
  "startsWith s p = (take (length p) s = p)"

definition endsWith :: "jstring \<Rightarrow> jstring \<Rightarrow> bool" where
  "endsWith s p = (length p \<le> length s \<and> drop (length s - length p) s = p)"

text \<open>
  The ECMAScript classes WhiteSpace and LineTerminator. \<open>trim()\<close> strips both from
  the two ends of a string, the class \<open>\s\<close> of a regular expression is their union,
  and \<open>.\<close> matches every code unit that is no line terminator.
\<close>

definition isLineTerminator :: "char16 \<Rightarrow> bool" where
  "isLineTerminator c = (c = 0x0A \<or> c = 0x0D \<or> c = 0x2028 \<or> c = 0x2029)"

definition isWhiteSpace :: "char16 \<Rightarrow> bool" where
  "isWhiteSpace c =
     (c = 0x09 \<or> c = 0x0B \<or> c = 0x0C \<or> c = 0x20 \<or> c = 0xA0 \<or> c = 0x1680
      \<or> (0x2000 \<le> c \<and> c \<le> 0x200A) \<or> c = 0x202F \<or> c = 0x205F \<or> c = 0x3000
      \<or> c = 0xFEFF)"

definition isSpace :: "char16 \<Rightarrow> bool" where
  "isSpace c = (isWhiteSpace c \<or> isLineTerminator c)"

definition trim :: "jstring \<Rightarrow> jstring" where
  "trim s = rev (dropWhile isSpace (rev (dropWhile isSpace s)))"

text \<open>\<open>s.split(d)\<close> for a one-character separator, and \<open>xs.join(sep)\<close>.\<close>

fun splitOn :: "char16 \<Rightarrow> jstring \<Rightarrow> jstring list" where
  "splitOn d [] = [[]]"
| "splitOn d (c # cs) =
     (if c = d then [] # splitOn d cs
      else (case splitOn d cs of [] \<Rightarrow> [[c]] | w # ws \<Rightarrow> (c # w) # ws))"

fun joinWith :: "jstring \<Rightarrow> jstring list \<Rightarrow> jstring" where
  "joinWith sep [] = []"
| "joinWith sep [x] = x"
| "joinWith sep (x # y # ys) = x @ sep @ joinWith sep (y # ys)"

section \<open>The sanitizer \<open>cleanText\<close>\<close>

text \<open>
  The table \<open>charMap\<close> of \<open>cleanText\<close>, key by key in the order of the source:
  the Turkish letters, the curly quotes, the dashes, the ellipsis and the three marks.
\<close>

definition charTable :: "(char16 \<times> jstring) list" where
  "charTable =
     [(0x131, js ''i''), (0x130, js ''I''), (0x11F, js ''g''), (0x11E, js ''G''),
      (0xFC, js ''u''), (0xDC, js ''U''), (0x15F, js ''s''), (0x15E, js ''S''),
      (0xF6, js ''o''), (0xD6, js ''O''), (0xE7, js ''c''), (0xC7, js ''C''),
      (0x201C, [0x22]), (0x201D, [0x22]), (0x2018, [0x27]), (0x2019, [0x27]),
      (0x2013, js ''-''), (0x2014, js ''-''),
      (0x2026, js ''...''), (0x2122, js ''(TM)''), (0xA9, js ''(C)''), (0xAE, js ''(R)'')]"

definition charMap :: "char16 \<Rightarrow> jstring option" where
  "charMap = map_of charTable"

text \<open>
  The callback of \<open>map\<close>: \<open>charMap[char] || (char.charCodeAt(0) > 127 ? '?' : char)\<close>.
  A table entry is used when it is truthy, that is a non-empty string.
\<close>

definition cleanChar :: "char16 \<Rightarrow> jstring" where
  "cleanChar c =
     (case charMap c of
        Some s \<Rightarrow> if s \<noteq> [] then s else (if 127 < unat c then js ''?'' else [c])
      | None \<Rightarrow> if 127 < unat c then js ''?'' else [c])"

definition cleanText :: "jstring \<Rightarrow> jstring" where
  "cleanText text = (if text = [] then [] else concat (map cleanChar text))"

text \<open>The characters that occur in the images of the table.\<close>

definition imageChars :: "char16 list" where
  "imageChars = concat (map snd charTable)"

text \<open>The printable 7-bit range, space to tilde.\<close>

definition isPrintable :: "char16 \<Rightarrow> bool" where
  "isPrintable c = (0x20 \<le> unat c \<and> unat c \<le> 0x7E)"

section \<open>The PPTX container and its text runs\<close>

text \<open>
  An entry of the archive, as \<open>zip.getEntries()\<close> returns it: its name and its
  content. The content of a part is modelled by the text that
  \<open>entry.getData().toString('utf8')\<close> reads (and that \<open>Buffer.from(content, 'utf8')\<close>
  writes back); a part that is no slide is never read, so its content is only carried
  along. The part names of a package are taken to be unique, which the theorems on
  reconstruction assume.
\<close>

record zipEntry =
  entryName :: jstring
  entryData :: jstring

type_synonym zip = "zipEntry list"

text \<open>
  The test of both loops:
  \<open>entryName.startsWith('ppt/slides/slide') && entryName.endsWith('.xml')\<close>.
\<close>

definition isSlide :: "jstring \<Rightarrow> bool" where
  "isSlide name = (startsWith name (js ''ppt/slides/slide'') \<and> endsWith name (js ''.xml''))"

definition openTag :: jstring where
  "openTag = js ''<a:t>''"

definition closeTag :: jstring where
  "closeTag = js ''</a:t>''"

text \<open>
  One attempt of the regular expression \<open><a:t>([^<]+)<\/a:t>\<close> at the head of a
  string: the group and the rest of the string after the match. The class \<open>[^<]+\<close>
  is greedy and must be followed by \<open><\<close>, so it takes every character up to the next
  \<open><\<close>, and giving characters back cannot help: a match exists exactly when that
  longest run is not empty and the closing tag follows it.
\<close>

definition matchRun :: "jstring \<Rightarrow> (jstring \<times> jstring) option" where
  "matchRun s =
     (if startsWith s openTag then
        (let body = drop (length openTag) s;
             p1 = takeWhile (\<lambda>c. c \<noteq> 0x3C) body;
             rest = dropWhile (\<lambda>c. c \<noteq> 0x3C) body
         in if p1 \<noteq> [] \<and> startsWith rest closeTag
            then Some (p1, drop (length closeTag) rest) else None)
      else None)"

text \<open>
  A scan with the \<open>g\<close> flag, which \<open>content.match\<close> and \<open>content.replace\<close> share:
  from left to right, a match is taken where the expression matches and the scan goes
  on behind it, otherwise one character is passed over. A piece is a character that
  no match covers, or a match with its group.
\<close>

datatype piece = Lit char16 | Run jstring

function scanRuns :: "jstring \<Rightarrow> piece list" where
  "scanRuns [] = []"
| "scanRuns (c # cs) =
     (case matchRun (c # cs) of
        Some (p1, rest) \<Rightarrow> Run p1 # scanRuns rest
      | None \<Rightarrow> Lit c # scanRuns cs)"
  by pat_completeness auto
termination
proof (relation "measure length")
  show "wf (measure length)" by simp
next
  fix c :: char16 and cs x p1 rest
  assume m: "matchRun (c # cs) = Some x" and x: "(p1, rest) = x"
  let ?body = "drop (length openTag) (c # cs)"
  from m x have "rest = drop (length closeTag) (dropWhile (\<lambda>c. c \<noteq> 0x3C) ?body)"
    by (auto simp: matchRun_def Let_def split: if_splits)
  then have "length rest \<le> length (dropWhile (\<lambda>c. c \<noteq> 0x3C) ?body)" by simp
  also have "\<dots> \<le> length ?body" by (rule length_dropWhile_le)
  also have "\<dots> < length (c # cs)" by (simp add: openTag_def js_def)
  finally show "(rest, c # cs) \<in> measure length" by simp
next
  fix c :: char16 and cs
  assume "matchRun (c # cs) = None"
  show "(cs, c # cs) \<in> measure length" by simp
qed

text \<open>The text a piece stands for: for a match, the whole match \<open>m\<close>.\<close>

fun matchText :: "piece \<Rightarrow> jstring" where
  "matchText (Lit c) = [c]"
| "matchText (Run p1) = openTag @ p1 @ closeTag"

fun isRun :: "piece \<Rightarrow> bool" where
  "isRun (Lit c) = False"
| "isRun (Run p1) = True"

text \<open>
  \<open>content.match(/<a:t>([^<]+)<\/a:t>/g)\<close>: the matches in order. Where the source gets
  \<open>null\<close> it skips the entry, as the empty list does here.
\<close>

definition regexMatchAll :: "jstring \<Rightarrow> jstring list" where
  "regexMatchAll content = map matchText (filter isRun (scanRuns content))"

text \<open>\<open>s.replace(pat, '')\<close> for a string pattern: the first occurrence is removed.\<close>

fun removeFirst :: "jstring \<Rightarrow> jstring \<Rightarrow> jstring" where
  "removeFirst pat [] = []"
| "removeFirst pat (c # cs) =
     (if startsWith (c # cs) pat then drop (length pat) (c # cs)
      else c # removeFirst pat cs)"

text \<open>
  Step 1 of \<open>handlePptxTranslation\<close>, for one slide and for the archive: each match
  is stripped of its tags and pushed to \<open>allText\<close> when \<open>text.trim()\<close> is not empty.
\<close>

definition slideTexts :: "jstring \<Rightarrow> jstring list" where
  "slideTexts content =
     filter (\<lambda>t. trim t \<noteq> [])
       (map (\<lambda>m. removeFirst closeTag (removeFirst openTag m)) (regexMatchAll content))"

fun gatherText :: "zip \<Rightarrow> jstring list" where
  "gatherText [] = []"
| "gatherText (entry # entries) =
     (if isSlide (entryName entry) then slideTexts (entryData entry) else [])
     @ gatherText entries"

section \<open>Batch translation\<close>

text \<open>
  A number in a template literal and a number used as a property key are both written
  in decimal without leading zeros; \<open>showNat\<close> is that conversion.
\<close>

definition digitChar :: "nat \<Rightarrow> char16" where
  "digitChar d = of_nat (48 + d)"

fun showNat :: "nat \<Rightarrow> jstring" where
  "showNat n = (if n < 10 then [digitChar n] else showNat (n div 10) @ [digitChar (n mod 10)])"

declare showNat.simps [simp del]

definition isDigit :: "char16 \<Rightarrow> bool" where
  "isDigit c = (0x30 \<le> c \<and> c \<le> 0x39)"

text \<open>
  \<open>line.match(/^\[(\d+)\]:\s*(.*)/)\<close>: the two groups of a line that matches. Each of
  \<open>\d+\<close>, \<open>\s*\<close> and \<open>.*\<close> is greedy and what follows it cannot start with a
  character of its own class (or, for \<open>\s*\<close> and \<open>.*\<close>, may be empty), so each takes
  its longest run.
\<close>

definition parseLine :: "jstring \<Rightarrow> (jstring \<times> jstring) option" where
  "parseLine line =
     (case line of
        [] \<Rightarrow> None
      | c # r \<Rightarrow>
          if c \<noteq> 0x5B then None
          else
            let ds = takeWhile isDigit r; r1 = dropWhile isDigit r in
            if ds = [] \<or> \<not> startsWith r1 (js '']:'') then None
            else Some (ds, takeWhile (\<lambda>c. \<not> isLineTerminator c)
                             (dropWhile isSpace (drop 2 r1))))"

text \<open>
  The object \<open>translations\<close>: its keys are the strings \<open>match[1]\<close>, and
  \<open>translations[currentTextIdx]\<close> reads the key \<open>showNat currentTextIdx\<close>.
\<close>

type_synonym translationMap = "jstring \<rightharpoonup> jstring"

definition storeLine :: "translationMap \<Rightarrow> jstring \<Rightarrow> translationMap" where
  "storeLine translations line =
     (case parseLine line of
        Some (k, v) \<Rightarrow> translations(k \<mapsto> v)
      | None \<Rightarrow> translations)"

definition storeLines :: "translationMap \<Rightarrow> jstring list \<Rightarrow> translationMap" where
  "storeLines translations lines = foldl storeLine translations lines"

text \<open>The prompt of a chunk that starts at unit \<open>i\<close>: one line \<open>[i + idx]: text\<close> a unit.\<close>

definition promptLine :: "nat \<Rightarrow> nat \<times> jstring \<Rightarrow> jstring" where
  "promptLine i = (\<lambda>(idx, t). js ''['' @ showNat (i + idx) @ js '']: '' @ t)"

definition promptText :: "nat \<Rightarrow> jstring list \<Rightarrow> jstring" where
  "promptText i chunk = joinWith [0x0A] (map (promptLine i) (enumerate 0 chunk))"

text \<open>
  The errors of the pipeline: the three that the handlers throw themselves, and an
  exception of a library or of the remote service, with its message.
\<close>

datatype error =
    NoTextInPresentation
  | NoTextInPdf
  | EmptyTranslation
  | External jstring

text \<open>
  A record of \<open>jobs[jobId]\<close>: status and message. A handler returns the records it
  has written for its job in order, next to its result, so that what a poll could
  have seen stays visible.
\<close>

datatype status = Starting | Extracting | Translating | Generating | Completed | Failed

type_synonym job = "status \<times> jstring"

text \<open>
  The remote service \<open>groq.chat.completions.create\<close>, with the model fixed: from the
  system instruction (one of the two templates of the handlers, filled with the target
  language) and the user content to \<open>choices[0]?.message?.content || ""\<close>, or to the
  message of the exception it throws.
\<close>

datatype instruction = TranslateList jstring | TranslateText jstring

type_synonym completion = "instruction \<Rightarrow> jstring \<Rightarrow> jstring + jstring"

definition chunkSize :: nat where
  "chunkSize = 50"

text \<open>
  \<open>Math.ceil(allText.length / chunkSize)\<close> and
  \<open>Math.round((currentChunkIdx / totalChunks) * 100)\<close>, in exact arithmetic.
\<close>

definition totalChunks :: "jstring list \<Rightarrow> int" where
  "totalChunks allText = \<lceil>real (length allText) / real chunkSize\<rceil>"

definition percentage :: "jstring list \<Rightarrow> nat \<Rightarrow> int" where
  "percentage allText i =
     (let currentChunkIdx = i div chunkSize + 1
      in round (real currentChunkIdx / real_of_int (totalChunks allText) * 100))"

definition progressMessage :: "int \<Rightarrow> jstring" where
  "progressMessage p = js ''Translating content... ('' @ showNat (nat p) @ js ''%)''"

text \<open>
  Step 2, the loop \<open>for (let i = 0; i < allText.length; i += chunkSize)\<close>: the job
  record is written before the call, the call may throw, and the lines of the answer
  are stored one after the other.
\<close>

function translateChunks ::
  "completion \<Rightarrow> jstring \<Rightarrow> jstring list \<Rightarrow> nat \<Rightarrow> translationMap \<Rightarrow> job list
     \<Rightarrow> job list \<times> (error + translationMap)" where
  "translateChunks groq targetLanguage allText i translations jobs =
     (if i < length allText then
        (let jobs' = jobs @ [(Translating, progressMessage (percentage allText i))];
             chunk = take chunkSize (drop i allText)
         in case groq (TranslateList targetLanguage) (promptText i chunk) of
              Inl m \<Rightarrow> (jobs', Inl (External m))
            | Inr translatedChunk \<Rightarrow>
                translateChunks groq targetLanguage allText (i + chunkSize)
                  (storeLines translations (splitOn 0x0A translatedChunk)) jobs')
      else (jobs, Inr translations))"
  by pat_completeness auto
termination
  by (relation "measure (\<lambda>(groq, targetLanguage, allText, i, translations, jobs).
        length allText - i)") (auto simp: chunkSize_def)

declare translateChunks.simps [simp del]

section \<open>Reconstruction of the slides\<close>

text \<open>
  The callback of \<open>content.replace\<close>, run over the pieces of a slide. It reads and
  advances \<open>currentTextIdx\<close> on a match whose group is not blank, and returns the
  match itself otherwise.
\<close>

fun replaceRuns :: "translationMap \<Rightarrow> piece list \<Rightarrow> nat \<Rightarrow> jstring \<times> nat" where
  "replaceRuns translations [] currentTextIdx = ([], currentTextIdx)"
| "replaceRuns translations (Lit c # ps) currentTextIdx =
     (let (out, idx') = replaceRuns translations ps currentTextIdx in (c # out, idx'))"
| "replaceRuns translations (Run p1 # ps) currentTextIdx =
     (if trim p1 \<noteq> [] then
        (let translated =
               (case translations (showNat currentTextIdx) of
                  Some t \<Rightarrow> if t \<noteq> [] then t else p1
                | None \<Rightarrow> p1);
             cleaned = cleanText translated;
             (out, idx') = replaceRuns translations ps (Suc currentTextIdx)
         in (openTag @ cleaned @ closeTag @ out, idx'))
      else
        (let (out, idx') = replaceRuns translations ps currentTextIdx
         in (matchText (Run p1) @ out, idx')))"

text \<open>
  \<open>zip.updateFile(name, content)\<close> sets the content of the entry of that name. The
  loop of step 3 walks the entries by position and reads each from the archive as it
  is at that moment, since the entries it iterates are the objects the archive holds.
\<close>

definition updateFile :: "jstring \<Rightarrow> jstring \<Rightarrow> zip \<Rightarrow> zip" where
  "updateFile name content z =
     map (\<lambda>e. if entryName e = name then e\<lparr>entryData := content\<rparr> else e) z"

fun reconstructEntries :: "translationMap \<Rightarrow> nat list \<Rightarrow> zip \<Rightarrow> nat \<Rightarrow> zip" where
  "reconstructEntries translations [] z currentTextIdx = z"
| "reconstructEntries translations (k # ks) z currentTextIdx =
     (let entry = z ! k in
      if isSlide (entryName entry) then
        (let (content, idx') =
               replaceRuns translations (scanRuns (entryData entry)) currentTextIdx
         in reconstructEntries translations ks
              (updateFile (entryName entry) content z) idx')
      else reconstructEntries translations ks z currentTextIdx)"

definition reconstruct :: "translationMap \<Rightarrow> zip \<Rightarrow> zip" where
  "reconstruct translations z = reconstructEntries translations [0..<length z] z 0"

text \<open>
  \<open>handlePptxTranslation\<close>. \<open>readZip\<close> stands for \<open>new AdmZip(req.file.path)\<close> with
  \<open>getEntries()\<close>, which throws on a file that is no archive.
\<close>

definition handlePptxTranslation ::
  "('f \<Rightarrow> jstring + zip) \<Rightarrow> completion \<Rightarrow> 'f \<Rightarrow> jstring \<Rightarrow> job list \<times> (error + zip)" where
  "handlePptxTranslation readZip groq file targetLanguage =
     (let jobs0 = [(Extracting, js ''Extracting slides...'')] in
      case readZip file of
        Inl m \<Rightarrow> (jobs0, Inl (External m))
      | Inr zipEntries \<Rightarrow>
          (let allText = gatherText zipEntries in
           if length allText = 0 then (jobs0, Inl NoTextInPresentation)
           else
             (case translateChunks groq targetLanguage allText 0 Map.empty jobs0 of
                (jobs1, Inl e) \<Rightarrow> (jobs1, Inl e)
              | (jobs1, Inr translations) \<Rightarrow>
                  (jobs1 @ [(Generating, js ''Reconstructing the slides...''),
                            (Completed, js ''Slide translation ready!'')],
                   Inr (reconstruct translations zipEntries)))))"

section \<open>PDF layout\<close>

text \<open>
  The layout works on JavaScript numbers; the model computes with real numbers. The
  cursor only ever takes the values \<open>height - margin - 17 a - 22 b\<close>, which
  are compared with \<open>margin + fontSize\<close>.
\<close>

definition fontSize :: real where
  "fontSize = 12"

definition margin :: real where
  "margin = 50"

text \<open>
  A call \<open>page.drawText(text, { x, y, size, font })\<close>, with the index of the page it
  draws on among the pages added so far. The state of the loops: the index of the
  current \<open>page\<close>, the cursor \<open>y\<close> and the calls made so far, in order.
\<close>

record draw =
  drawPage :: nat
  drawX :: real
  drawY :: real
  drawText :: jstring

record layout =
  pageIndex :: nat
  cursorY :: real
  drawn :: "draw list"

text \<open>
  \<open>font.widthOfTextAtSize(text, size)\<close>: a width, or the message of the exception it
  throws on a text the font cannot encode.
\<close>

type_synonym measure = "jstring \<Rightarrow> real \<Rightarrow> jstring + real"

text \<open>\<open>if (y < margin + fontSize) { page = pdfDoc.addPage(); y = height - margin; }\<close>\<close>

definition newPageIfNeeded :: "real \<Rightarrow> layout \<Rightarrow> layout" where
  "newPageIfNeeded height st =
     (if cursorY st < margin + fontSize
      then st\<lparr>pageIndex := Suc (pageIndex st), cursorY := height - margin\<rparr>
      else st)"

text \<open>\<open>page.drawText(cleanText(currentLine), { x: margin, y, size: fontSize, font })\<close>\<close>

definition drawLine :: "jstring \<Rightarrow> layout \<Rightarrow> layout" where
  "drawLine currentLine st =
     st\<lparr>drawn := drawn st @
          [\<lparr>drawPage = pageIndex st, drawX = margin, drawY = cursorY st,
            drawText = cleanText currentLine\<rparr>]\<rparr>"

text \<open>
  The loop over the words of a line. The measurement is tried on \<open>testLine\<close> and,
  when that throws, on \<open>currentLine || word\<close>; an exception of the second
  measurement leaves the handler.
\<close>

fun layoutWords ::
  "measure \<Rightarrow> real \<Rightarrow> real \<Rightarrow> jstring list \<Rightarrow> jstring \<Rightarrow> layout
     \<Rightarrow> error + (jstring \<times> layout)" where
  "layoutWords font maxWidth height [] currentLine st = Inr (currentLine, st)"
| "layoutWords font maxWidth height (word # words) currentLine st =
     (let testLine = (if currentLine \<noteq> [] then currentLine @ js '' '' @ word else word);
          measured =
            (case font testLine fontSize of
               Inr w \<Rightarrow> Inr w
             | Inl e \<Rightarrow> font (if currentLine \<noteq> [] then currentLine else word) fontSize)
      in case measured of
           Inl e \<Rightarrow> Inl (External e)
         | Inr testWidth \<Rightarrow>
             if testWidth > maxWidth then
               layoutWords font maxWidth height words word
                 (newPageIfNeeded height
                    ((drawLine currentLine st)\<lparr>cursorY := cursorY st - (fontSize + 5)\<rparr>))
             else layoutWords font maxWidth height words testLine st)"

text \<open>The loop over the lines of the translated text.\<close>

fun layoutLines ::
  "measure \<Rightarrow> real \<Rightarrow> real \<Rightarrow> jstring list \<Rightarrow> layout \<Rightarrow> error + layout" where
  "layoutLines font maxWidth height [] st = Inr st"
| "layoutLines font maxWidth height (line # lines) st =
     (case layoutWords font maxWidth height (splitOn 0x20 line) []
             (newPageIfNeeded height st) of
        Inl e \<Rightarrow> Inl e
      | Inr (currentLine, st') \<Rightarrow>
          layoutLines font maxWidth height lines
            (if currentLine \<noteq> []
             then (drawLine currentLine st')\<lparr>cursorY := cursorY st' - (fontSize + 10)\<rparr>
             else st'))"

text \<open>
  \<open>handlePdfTranslation\<close>. \<open>pdfParse\<close> returns the text layer of the upload or
  throws; \<open>pageSize\<close> is \<open>page.getSize()\<close> of the first page.
\<close>

definition handlePdfTranslation ::
  "('f \<Rightarrow> jstring + jstring) \<Rightarrow> completion \<Rightarrow> measure \<Rightarrow> real \<times> real \<Rightarrow> 'f \<Rightarrow> jstring
     \<Rightarrow> job list \<times> (error + layout)" where
  "handlePdfTranslation pdfParse groq font pageSize file targetLanguage =
     (let jobs0 = [(Extracting, js ''Extracting text from PDF...'')] in
      case pdfParse file of
        Inl m \<Rightarrow> (jobs0, Inl (External m))
      | Inr originalText \<Rightarrow>
          if trim originalText = [] then (jobs0, Inl NoTextInPdf)
          else
            (let jobs1 = jobs0 @ [(Translating, js ''Translating document... (50%)'')] in
             case groq (TranslateText targetLanguage) originalText of
               Inl m \<Rightarrow> (jobs1, Inl (External m))
             | Inr content \<Rightarrow>
                 (let translatedText = cleanText content in
                  if translatedText = [] then (jobs1, Inl EmptyTranslation)
                  else
                    (let jobs2 = jobs1 @ [(Generating, js ''Generating translated PDF...'')];
                         (width, height) = pageSize;
                         maxWidth = width - margin * 2;
                         st0 = \<lparr>pageIndex = 0, cursorY = height - margin, drawn = []\<rparr>
                     in case layoutLines font maxWidth height
                               (splitOn 0x0A translatedText) st0 of
                          Inl e \<Rightarrow> (jobs2, Inl e)
                        | Inr st \<Rightarrow>
                            (jobs2 @ [(Completed, js ''PDF translation ready!'')],
                             Inr st)))))"

section \<open>The route \<open>/api/translate\<close>\<close>

text \<open>
  \<open>originalname.toLowerCase()\<close> on the letters A to Z. No other character has a
  lower-case form among the characters of \<open>.pptx\<close>, so the test of the suffix is the
  source's.
\<close>

definition toLowerCase :: "jstring \<Rightarrow> jstring" where
  "toLowerCase s = map (\<lambda>c. if 0x41 \<le> c \<and> c \<le> 0x5A then c + 0x20 else c) s"

definition errorMessage :: "error \<Rightarrow> jstring" where
  "errorMessage e =
     (case e of
        NoTextInPresentation \<Rightarrow> js ''No text found in presentation.''
      | NoTextInPdf \<Rightarrow> js ''Could not extract text from PDF.''
      | EmptyTranslation \<Rightarrow> js ''Empty translation received from Groq.''
      | External m \<Rightarrow> m)"

text \<open>What the route sends: status 400, status 500, or the document.\<close>

datatype response =
    BadRequest jstring
  | ServerError jstring
  | PptxFile zip
  | PdfFile layout

text \<open>
  The request: \<open>req.file\<close> with its \<open>originalname\<close> and the stored upload, and
  \<open>req.body.targetLanguage\<close>.
\<close>

record 'f request =
  reqFile :: "(jstring \<times> 'f) option"
  reqTargetLanguage :: "jstring option"

text \<open>\<open>req.body.targetLanguage || 'Turkish'\<close>\<close>

definition requestLanguage :: "'f request \<Rightarrow> jstring" where
  "requestLanguage req =
     (case reqTargetLanguage req of
        Some l \<Rightarrow> if l \<noteq> [] then l else js ''Turkish''
      | None \<Rightarrow> js ''Turkish'')"

text \<open>The \<open>catch\<close> block of the route.\<close>

definition failWith :: "job list \<Rightarrow> error \<Rightarrow> job list \<times> response" where
  "failWith jobs e =
     (jobs @ [(Failed, errorMessage e)],
      ServerError (js ''An error occurred during translation: '' @ errorMessage e))"

definition translateRoute ::
  "('f \<Rightarrow> jstring + zip) \<Rightarrow> ('f \<Rightarrow> jstring + jstring) \<Rightarrow> completion \<Rightarrow> measure
     \<Rightarrow> real \<times> real \<Rightarrow> 'f request \<Rightarrow> job list \<times> response" where
  "translateRoute readZip pdfParse groq font pageSize req =
     (let jobs0 = [(Starting, js ''Initializing...'')] in
      case reqFile req of
        None \<Rightarrow>
          (jobs0 @ [(Failed, js ''No file uploaded.'')], BadRequest (js ''No file uploaded.''))
      | Some (originalname, file) \<Rightarrow>
          (let targetLanguage = requestLanguage req;
               isPptx = endsWith (toLowerCase originalname) (js ''.pptx'')
           in if isPptx then
                (case handlePptxTranslation readZip groq file targetLanguage of
                   (jobs, Inl e) \<Rightarrow> failWith (jobs0 @ jobs) e
                 | (jobs, Inr z) \<Rightarrow> (jobs0 @ jobs, PptxFile z))
              else
                (case handlePdfTranslation pdfParse groq font pageSize file targetLanguage of
                   (jobs, Inl e) \<Rightarrow> failWith (jobs0 @ jobs) e
                 | (jobs, Inr d) \<Rightarrow> (jobs0 @ jobs, PdfFile d))))"

section \<open>Notions the properties are stated with\<close>

subsection \<open>Slides as sequences of pieces\<close>

text \<open>The text of a sequence of pieces; \<open>render (scanRuns s) = s\<close> is proved below.\<close>

definition render :: "piece list \<Rightarrow> jstring" where
  "render ps = concat (map matchText ps)"

text \<open>The text units among the pieces: the groups of the matches that are not blank.\<close>

fun unitTexts :: "piece list \<Rightarrow> jstring list" where
  "unitTexts [] = []"
| "unitTexts (Lit c # ps) = unitTexts ps"
| "unitTexts (Run p1 # ps) = (if trim p1 \<noteq> [] then [p1] else []) @ unitTexts ps"

text \<open>
  The pieces of a slide with the texts \<open>ts\<close> written, in order, into its runs that are
  not blank, and the archive with the texts written into the units of its slides.
  Nothing else changes.
\<close>

fun substRuns :: "jstring list \<Rightarrow> piece list \<Rightarrow> piece list" where
  "substRuns ts [] = []"
| "substRuns ts (Lit c # ps) = Lit c # substRuns ts ps"
| "substRuns ts (Run p1 # ps) =
     (if trim p1 \<noteq> [] then
        (case ts of
           [] \<Rightarrow> Run p1 # substRuns [] ps
         | t # ts' \<Rightarrow> Run t # substRuns ts' ps)
      else Run p1 # substRuns ts ps)"

fun substZip :: "jstring list \<Rightarrow> zip \<Rightarrow> zip" where
  "substZip ts [] = []"
| "substZip ts (entry # entries) =
     (if isSlide (entryName entry) then
        (let n = length (slideTexts (entryData entry)) in
         entry\<lparr>entryData := render (substRuns (take n ts) (scanRuns (entryData entry)))\<rparr>
           # substZip (drop n ts) entries)
      else entry # substZip ts entries)"

text \<open>
  The text that reconstruction writes for the unit of id \<open>k\<close> whose original text is
  \<open>p1\<close>, and the texts it writes for the units \<open>idx, idx + 1, \<dots>\<close>.
\<close>

definition newText :: "translationMap \<Rightarrow> nat \<Rightarrow> jstring \<Rightarrow> jstring" where
  "newText translations k p1 =
     cleanText (case translations (showNat k) of
                  Some t \<Rightarrow> if t \<noteq> [] then t else p1
                | None \<Rightarrow> p1)"

definition newTexts :: "translationMap \<Rightarrow> nat \<Rightarrow> jstring list \<Rightarrow> jstring list" where
  "newTexts translations idx units =
     map (\<lambda>(k, p1). newText translations k p1) (enumerate idx units)"





subsection \<open>Lines of a response\<close>




text \<open>The service that answers with the user content.\<close>

definition echo :: completion where
  "echo systemInstruction userContent = Inr userContent"

subsection \<open>Drawn words and the cursor\<close>

text \<open>The words of a line or of a drawn text: what stands between spaces.\<close>

definition wordsOf :: "jstring \<Rightarrow> jstring list" where
  "wordsOf s = filter (\<lambda>w. w \<noteq> []) (splitOn 0x20 s)"

definition drawnWords :: "draw list \<Rightarrow> jstring list" where
  "drawnWords ds = concat (map (\<lambda>d. wordsOf (drawText d)) ds)"

text \<open>
  Where the next call draws after a call \<open>d\<close> and an advance of the cursor: on a new
  page at \<open>height - margin\<close> when the advanced cursor is below \<open>margin + fontSize\<close>,
  at the advanced cursor on the same page otherwise. The advance is \<open>fontSize + 5\<close>
  within a line and \<open>fontSize + 10\<close> at its end.
\<close>

definition afterDraw :: "real \<Rightarrow> real \<Rightarrow> draw \<Rightarrow> nat \<times> real \<Rightarrow> bool" where
  "afterDraw height advance d pos =
     (if drawY d - advance < margin + fontSize
      then pos = (Suc (drawPage d), height - margin)
      else pos = (drawPage d, drawY d - advance))"

definition nextDraw :: "real \<Rightarrow> draw \<Rightarrow> draw \<Rightarrow> bool" where
  "nextDraw height d d' =
     (afterDraw height (fontSize + 5) d (drawPage d', drawY d')
      \<or> afterDraw height (fontSize + 10) d (drawPage d', drawY d'))"

text \<open>The invariant of the two loops of the layout.\<close>

definition cursorInv :: "real \<Rightarrow> layout \<Rightarrow> bool" where
  "cursorInv height st =
     ((\<forall>d \<in> set (drawn st). margin + fontSize \<le> drawY d)
      \<and> successively (nextDraw height) (drawn st)
      \<and> (case drawn st of [] \<Rightarrow> True
          | d # ds \<Rightarrow> drawPage d = 0 \<and> drawY d = height - margin)
      \<and> (if drawn st = [] then pageIndex st = 0 \<and> cursorY st = height - margin
          else (\<exists>advance \<in> {fontSize + 5, fontSize + 10}.
                  (pageIndex st, cursorY st)
                    = (drawPage (last (drawn st)), drawY (last (drawn st)) - advance)
                  \<or> afterDraw height advance (last (drawn st)) (pageIndex st, cursorY st))))"

subsection \<open>Concrete inputs\<close>

text \<open>
  A deck of two slides and a picture; a deck whose only run begins with a space; a
  deck of 120 slides with one run each.
\<close>

definition deck :: zip where
  "deck =
     [\<lparr>entryName = js ''ppt/slides/slide1.xml'',
       entryData = js ''<a:p><a:t>Ders '' @ [0x15F] @ js ''</a:t><a:t> </a:t></a:p>''\<rparr>,
      \<lparr>entryName = js ''ppt/media/image1.png'', entryData = js ''<a:t>x</a:t>''\<rparr>,
      \<lparr>entryName = js ''ppt/slides/slide2.xml'', entryData = js ''<a:t>Son</a:t>''\<rparr>]"


definition slideNo :: "nat \<Rightarrow> zipEntry" where
  "slideNo n =
     \<lparr>entryName = js ''ppt/slides/slide'' @ showNat n @ js ''.xml'',
      entryData = js ''<a:t>a</a:t>''\<rparr>"

definition deck120 :: zip where
  "deck120 = map slideNo [0..<120]"

text \<open>
  An archive reader and two parsers of the text layer for an upload that is a plain
  text, and a font in which every character is half the font size wide.
\<close>

definition noZip :: "jstring \<Rightarrow> jstring + zip" where
  "noZip file = Inl (js ''Invalid or unsupported zip format. No END header found'')"

definition textLayer :: "jstring \<Rightarrow> jstring + jstring" where
  "textLayer file = Inr file"

definition noPdf :: "jstring \<Rightarrow> jstring + jstring" where
  "noPdf file = Inl (js ''Invalid PDF structure'')"

definition charWidth :: measure where
  "charWidth t sz = Inr (real (length t) * sz / 2)"

definition notesRequest :: "jstring request" where
  "notesRequest =
     \<lparr>reqFile = Some (js ''notes.txt'', js ''Hello world''), reqTargetLanguage = None\<rparr>"

section \<open>Properties of the sanitizer\<close>

lemma charMap_cases:
  assumes "charMap c = Some s"
  shows "(c, s) \<in> set charTable"
  using assms unfolding charMap_def by (rule map_of_SomeD)

lemma charMap_key_high: "charMap c = Some s \<Longrightarrow> 127 < unat c"
  by (drule charMap_cases) (auto simp: charTable_def)

lemma charMap_image_ascii: "charMap c = Some s \<Longrightarrow> ch \<in> set s \<Longrightarrow> unat ch \<le> 127"
  by (drule charMap_cases) (auto simp: charTable_def js_def)

lemma charMap_image_chars: "charMap c = Some s \<Longrightarrow> ch \<in> set s \<Longrightarrow> ch \<in> set imageChars"
  by (drule charMap_cases) (force simp: imageChars_def)

lemma charMap_low: "unat c \<le> 127 \<Longrightarrow> charMap c = None"
  using charMap_key_high [of c] by (cases "charMap c") auto

lemma cleanChar_low: "unat c \<le> 127 \<Longrightarrow> cleanChar c = [c]"
  by (simp add: cleanChar_def charMap_low)

lemma cleanChar_ascii: "ch \<in> set (cleanChar c) \<Longrightarrow> unat ch \<le> 127"
  by (auto simp: cleanChar_def js_def split: option.splits if_splits
      dest: charMap_image_ascii)

lemma cleanChar_nonempty: "cleanChar c \<noteq> []"
  by (auto simp: cleanChar_def js_def split: option.splits)

lemma cleanChar_origin:
  "ch \<in> set (cleanChar c) \<Longrightarrow> ch \<in> set imageChars \<or> ch = 0x3F \<or> (ch = c \<and> unat c \<le> 127)"
  by (auto simp: cleanChar_def js_def split: option.splits if_splits
      dest: charMap_image_chars)

lemma cleanText_concat: "cleanText s = concat (map cleanChar s)"
  by (simp add: cleanText_def)

lemma cleanText_ascii: "ch \<in> set (cleanText s) \<Longrightarrow> unat ch \<le> 127"
  by (auto simp: cleanText_concat dest: cleanChar_ascii)

lemma cleanText_fixed: "\<forall>c \<in> set s. unat c \<le> 127 \<Longrightarrow> cleanText s = s"
  by (induction s) (auto simp: cleanText_concat cleanChar_low)

lemma cleanText_nonempty: "s \<noteq> [] \<Longrightarrow> cleanText s \<noteq> []"
  by (cases s) (auto simp: cleanText_concat cleanChar_nonempty)

text \<open>
  Claim C3, as the code has it: every character of the output of \<open>cleanText\<close> is a
  character of an image of the table, or the placeholder \<open>?\<close>, or a character of
  the input whose code is at most 127 and which passed unchanged (control characters
  included); in each case its code is at most 127.
\<close>

theorem cleanText_output_chars:
  assumes "ch \<in> set (cleanText s)"
  shows "(ch \<in> set imageChars \<or> ch = 0x3F \<or> (ch \<in> set s \<and> unat ch \<le> 127))
         \<and> unat ch \<le> 127"
proof -
  from assms obtain c where c: "c \<in> set s" and ch: "ch \<in> set (cleanChar c)"
    by (auto simp: cleanText_concat)
  from cleanChar_origin [OF ch] c
  have "ch \<in> set imageChars \<or> ch = 0x3F \<or> (ch \<in> set s \<and> unat ch \<le> 127)"
    by auto
  moreover from ch have "unat ch \<le> 127" by (rule cleanChar_ascii)
  ultimately show ?thesis by simp
qed

theorem cleanText_output_chars_witness:
  "0x0A \<in> set (cleanText [0x15F, 0x0A, 0x2122])
   \<and> ((0x0A :: char16) \<in> set imageChars \<or> (0x0A :: char16) = 0x3F
        \<or> ((0x0A :: char16) \<in> set [0x15F, 0x0A, 0x2122] \<and> unat (0x0A :: char16) \<le> 127))
   \<and> unat (0x0A :: char16) \<le> 127"
proof -
  have h: "(0x0A :: char16) \<in> set (cleanText [0x15F, 0x0A, 0x2122])"
    by (simp add: cleanText_def cleanChar_def charMap_def charTable_def js_def)
  from cleanText_output_chars [OF h] h show ?thesis by simp
qed

text \<open>
  Claim C3, as stated, fails: a line feed passes through \<open>cleanText\<close> unchanged, and
  it is neither in an image of the table, nor printable, nor the placeholder.
\<close>

theorem cleanText_printable_counterexample:
  "cleanText [0x61, 0x0A, 0x62] = [0x61, 0x0A, 0x62]
   \<and> (0x0A :: char16) \<notin> set imageChars
   \<and> \<not> isPrintable 0x0A
   \<and> (0x0A :: char16) \<noteq> 0x3F"
  by (simp add: cleanText_def cleanChar_def charMap_def charTable_def js_def
      imageChars_def isPrintable_def)

text \<open>
  Claim C8: the sanitizer is idempotent, \<open>cleanText (cleanText x) = cleanText x\<close>
  for every string \<open>x\<close>.
\<close>

theorem cleanText_idempotent: "cleanText (cleanText x) = cleanText x"
  by (rule cleanText_fixed) (simp add: cleanText_ascii)

section \<open>Properties of extraction and reconstruction\<close>

text \<open>
  A match is the opening tag, a group without \<open><\<close> that is not empty, and the
  closing tag; the scan gives back the text it was run on.
\<close>

lemma startsWith_iff: "startsWith s p \<longleftrightarrow> (\<exists>r. s = p @ r)"
proof
  assume "startsWith s p"
  then have "s = p @ drop (length p) s"
    unfolding startsWith_def by (metis append_take_drop_id)
  then show "\<exists>r. s = p @ r" ..
next
  assume "\<exists>r. s = p @ r"
  then show "startsWith s p" by (auto simp: startsWith_def)
qed

lemma closeTag_Cons: "closeTag = 0x3C # js ''/a:t>''"
  by (simp add: closeTag_def js_def)

lemma openTag_Cons: "openTag = 0x3C # js ''a:t>''"
  by (simp add: openTag_def js_def)

lemma matchRun_Some_iff:
  "matchRun s = Some (p1, rest) \<longleftrightarrow>
     s = openTag @ p1 @ closeTag @ rest \<and> p1 \<noteq> [] \<and> 0x3C \<notin> set p1"
proof
  assume m: "matchRun s = Some (p1, rest)"
  let ?body = "drop (length openTag) s"
  let ?r = "dropWhile (\<lambda>c. c \<noteq> 0x3C) ?body"
  from m have sw: "startsWith s openTag"
    and p1: "p1 = takeWhile (\<lambda>c. c \<noteq> 0x3C) ?body" and ne: "p1 \<noteq> []"
    and cl: "startsWith ?r closeTag" and rest: "rest = drop (length closeTag) ?r"
    by (auto simp: matchRun_def Let_def split: if_splits)
  from sw have "s = openTag @ ?body"
    by (auto simp: startsWith_iff)
  moreover have "?body = p1 @ ?r" by (simp add: p1)
  moreover from cl have "?r = closeTag @ rest"
    by (auto simp: startsWith_iff rest)
  ultimately have "s = openTag @ p1 @ closeTag @ rest" by simp
  moreover have "0x3C \<notin> set p1"
    unfolding p1 by (auto dest: set_takeWhileD)
  ultimately show "s = openTag @ p1 @ closeTag @ rest \<and> p1 \<noteq> [] \<and> 0x3C \<notin> set p1"
    using ne by simp
next
  assume a: "s = openTag @ p1 @ closeTag @ rest \<and> p1 \<noteq> [] \<and> 0x3C \<notin> set p1"
  then have tw: "takeWhile (\<lambda>c. c \<noteq> 0x3C) (p1 @ closeTag @ rest) = p1"
    and dw: "dropWhile (\<lambda>c. c \<noteq> 0x3C) (p1 @ closeTag @ rest) = closeTag @ rest"
    by (auto simp: closeTag_Cons takeWhile_append dropWhile_append dest: set_takeWhileD)
  from a show "matchRun s = Some (p1, rest)"
    by (simp add: matchRun_def startsWith_iff tw dw)
qed

lemma scanRuns_match:
  assumes "matchRun s = Some (p1, rest)"
  shows "scanRuns s = Run p1 # scanRuns rest"
proof (cases s)
  case Nil
  with assms show ?thesis by (simp add: matchRun_Some_iff openTag_Cons)
next
  case (Cons c cs)
  with assms show ?thesis by simp
qed

lemma render_Nil [simp]: "render [] = []"
  by (simp add: render_def)

lemma render_Cons [simp]: "render (p # ps) = matchText p @ render ps"
  by (simp add: render_def)


text \<open>
  Stripping the tags of a match leaves its group, so the text units of a slide are
  the groups of its runs that are not blank.
\<close>

lemma removeFirst_prefix: "pat \<noteq> [] \<Longrightarrow> removeFirst pat (pat @ r) = r"
  by (cases pat) (auto simp: startsWith_def)

lemma removeFirst_closeTag: "0x3C \<notin> set p \<Longrightarrow> removeFirst closeTag (p @ closeTag) = p"
proof (induction p)
  case Nil
  show ?case using removeFirst_prefix [of closeTag "[]"] by (simp add: closeTag_Cons)
next
  case (Cons a p)
  then have "\<not> startsWith (a # p @ closeTag) closeTag"
    by (auto simp: startsWith_def closeTag_Cons)
  with Cons show ?case by simp
qed

lemma scanRuns_wellformed:
  "Run p \<in> set (scanRuns s) \<Longrightarrow> p \<noteq> [] \<and> 0x3C \<notin> set p"
proof (induction s rule: scanRuns.induct)
  case 1
  then show ?case by simp
next
  case (2 c cs)
  show ?case
  proof (cases "matchRun (c # cs)")
    case None
    with 2 show ?thesis by simp
  next
    case (Some pr)
    obtain p1 rest where pr: "pr = (p1, rest)" by (cases pr)
    from Some pr have m: "matchRun (c # cs) = Some (p1, rest)" by simp
    from "2.prems" have "p = p1 \<or> Run p \<in> set (scanRuns rest)"
      unfolding scanRuns_match [OF m] by auto
    then show ?thesis
    proof
      assume "p = p1"
      with m show ?thesis by (simp add: matchRun_Some_iff)
    next
      assume "Run p \<in> set (scanRuns rest)"
      with "2.IH"(2) [OF Some pr [symmetric]] show ?thesis by simp
    qed
  qed
qed

lemma strip_tags:
  assumes "p \<noteq> []" and "0x3C \<notin> set p"
  shows "removeFirst closeTag (removeFirst openTag (openTag @ p @ closeTag)) = p"
proof -
  have "removeFirst openTag (openTag @ p @ closeTag) = p @ closeTag"
    by (rule removeFirst_prefix) (simp add: openTag_Cons)
  with assms show ?thesis by (simp add: removeFirst_closeTag)
qed

lemma slideTexts_pieces:
  assumes "\<forall>p. Run p \<in> set ps \<longrightarrow> p \<noteq> [] \<and> 0x3C \<notin> set p"
  shows "filter (\<lambda>t. trim t \<noteq> [])
           (map (\<lambda>m. removeFirst closeTag (removeFirst openTag m))
              (map matchText (filter isRun ps))) = unitTexts ps"
  using assms
proof (induction ps)
  case Nil
  show ?case by simp
next
  case (Cons a ps)
  show ?case
  proof (cases a)
    case (Lit c)
    with Cons show ?thesis by simp
  next
    case (Run p)
    with Cons.prems have "p \<noteq> []" "0x3C \<notin> set p" by auto
    then have "removeFirst closeTag (removeFirst openTag (openTag @ p @ closeTag)) = p"
      by (rule strip_tags)
    with Cons Run show ?thesis by simp
  qed
qed

lemma slideTexts_unitTexts: "slideTexts content = unitTexts (scanRuns content)"
  unfolding slideTexts_def regexMatchAll_def
  by (rule slideTexts_pieces) (auto dest: scanRuns_wellformed)

lemma unitTexts_member: "u \<in> set (unitTexts ps) \<Longrightarrow> Run u \<in> set ps \<and> trim u \<noteq> []"
proof (induction ps)
  case Nil
  then show ?case by simp
next
  case (Cons a ps)
  then show ?case by (cases a) (auto split: if_splits)
qed

lemma slideTexts_units:
  assumes "u \<in> set (slideTexts content)"
  shows "trim u \<noteq> [] \<and> u \<noteq> [] \<and> 0x3C \<notin> set u"
proof -
  from assms have "Run u \<in> set (scanRuns content)" and "trim u \<noteq> []"
    by (simp_all add: slideTexts_unitTexts unitTexts_member)
  with scanRuns_wellformed [of u content] show ?thesis by simp
qed

lemma gatherText_units:
  assumes "u \<in> set (gatherText z)"
  shows "trim u \<noteq> [] \<and> u \<noteq> [] \<and> 0x3C \<notin> set u"
  using assms
proof (induction z)
  case Nil
  then show ?case by simp
next
  case (Cons e es)
  from Cons.prems have "u \<in> set (slideTexts (entryData e)) \<or> u \<in> set (gatherText es)"
    by (auto split: if_splits)
  then show ?case
  proof
    assume "u \<in> set (slideTexts (entryData e))"
    then show ?thesis by (rule slideTexts_units)
  next
    assume "u \<in> set (gatherText es)"
    then show ?thesis by (rule Cons.IH)
  qed
qed

text \<open>
  The callback writes \<open>newTexts\<close> into the units of a slide and advances the
  index by their number.
\<close>

lemma newTexts_Nil [simp]: "newTexts tr idx [] = []"
  by (simp add: newTexts_def)

lemma newTexts_Cons [simp]:
  "newTexts tr idx (u # us) = newText tr idx u # newTexts tr (Suc idx) us"
  by (simp add: newTexts_def)

lemma newTexts_append:
  "newTexts tr idx (us @ vs) = newTexts tr idx us @ newTexts tr (idx + length us) vs"
  by (simp add: newTexts_def enumerate_append_eq)

lemma length_newTexts [simp]: "length (newTexts tr idx us) = length us"
  by (simp add: newTexts_def)

lemma nth_newTexts:
  "k < length us \<Longrightarrow> newTexts tr idx us ! k = newText tr (idx + k) (us ! k)"
  by (simp add: newTexts_def nth_enumerate_eq)

lemma replaceRuns_subst:
  "replaceRuns tr ps idx =
     (render (substRuns (newTexts tr idx (unitTexts ps)) ps), idx + length (unitTexts ps))"
proof (induction ps arbitrary: idx)
  case Nil
  show ?case by simp
next
  case (Cons a ps)
  show ?case
  proof (cases a)
    case (Lit c)
    with Cons show ?thesis by simp
  next
    case (Run p)
    show ?thesis
    proof (cases "trim p = []")
      case True
      with Cons Run show ?thesis by simp
    next
      case False
      with Cons [of "Suc idx"] Run show ?thesis by (simp add: newText_def)
    qed
  qed
qed

text \<open>
  With unique names \<open>updateFile\<close> changes the entry at hand only, so the loop over
  the positions rebuilds the archive entry by entry.
\<close>

lemma updateFile_at:
  assumes "distinct (map entryName (pre @ e # es))"
  shows "updateFile (entryName e) c (pre @ e # es) = pre @ e\<lparr>entryData := c\<rparr> # es"
proof -
  let ?f = "\<lambda>x. if entryName x = entryName e then x\<lparr>entryData := c\<rparr> else x"
  from assms have "\<forall>x \<in> set pre. entryName x \<noteq> entryName e"
    and "\<forall>x \<in> set es. entryName x \<noteq> entryName e"
    by (auto simp: image_iff)
  then have "map ?f pre = pre" and "map ?f es = es"
    by (simp_all add: map_idI)
  then show ?thesis by (simp add: updateFile_def)
qed

lemma reconstructEntries_subst:
  assumes "distinct (map entryName (pre @ todo))"
  shows "reconstructEntries tr [length pre ..< length pre + length todo] (pre @ todo) idx
           = pre @ substZip (newTexts tr idx (gatherText todo)) todo"
  using assms
proof (induction todo arbitrary: pre idx)
  case Nil
  show ?case by simp
next
  case (Cons e es)
  have upt: "[length pre ..< length pre + length (e # es)]
               = length pre # [length (pre @ [e]) ..< length (pre @ [e]) + length es]"
    using upt_conv_Cons [of "length pre" "length pre + length (e # es)"] by simp
  have at: "(pre @ e # es) ! length pre = e" by simp
  show ?case
  proof (cases "isSlide (entryName e)")
    case False
    from Cons.prems have "distinct (map entryName ((pre @ [e]) @ es))" by simp
    from Cons.IH [OF this, of idx] False show ?thesis
      unfolding upt by (simp add: Let_def)
  next
    case True
    let ?n = "length (slideTexts (entryData e))"
    let ?news = "newTexts tr idx (slideTexts (entryData e))"
    let ?e' = "e\<lparr>entryData := render (substRuns ?news (scanRuns (entryData e)))\<rparr>"
    from Cons.prems have "distinct (map entryName ((pre @ [?e']) @ es))" by simp
    from Cons.IH [OF this, of "idx + ?n"]
    have ih: "reconstructEntries tr [length (pre @ [e]) ..< length (pre @ [e]) + length es]
                (pre @ ?e' # es) (idx + ?n)
              = pre @ ?e' # substZip (newTexts tr (idx + ?n) (gatherText es)) es"
      by simp
    have sub: "substZip (newTexts tr idx (gatherText (e # es))) (e # es)
               = ?e' # substZip (newTexts tr (idx + ?n) (gatherText es)) es"
      using True by (simp add: newTexts_append Let_def)
    have "reconstructEntries tr [length pre ..< length pre + length (e # es)]
            (pre @ e # es) idx
          = reconstructEntries tr [length (pre @ [e]) ..< length (pre @ [e]) + length es]
              (pre @ ?e' # es) (idx + ?n)"
      unfolding upt using True
      by (simp add: Let_def replaceRuns_subst slideTexts_unitTexts
          updateFile_at [OF Cons.prems])
    with ih sub show ?thesis by simp
  qed
qed

lemma reconstruct_subst:
  assumes "distinct (map entryName z)"
  shows "reconstruct tr z = substZip (newTexts tr 0 (gatherText z)) z"
  using reconstructEntries_subst [of "[]" z tr 0] assms
  by (simp add: reconstruct_def)


lemma length_substZip [simp]: "length (substZip ts z) = length z"
  by (induction z arbitrary: ts) (simp_all add: Let_def)


lemma newText_nonempty: "p \<noteq> [] \<Longrightarrow> newText tr k p \<noteq> []"
  by (auto simp: newText_def intro!: cleanText_nonempty split: option.splits)

lemma newText_absent: "tr (showNat k) = None \<Longrightarrow> newText tr k p = cleanText p"
  by (simp add: newText_def)

lemmas scan_eval = js_def isSlide_def startsWith_def endsWith_def matchRun_def openTag_def
  closeTag_def slideTexts_def regexMatchAll_def trim_def isSpace_def isWhiteSpace_def
  isLineTerminator_def



text \<open>
  Evaluation of the concrete decks.
\<close>

lemma deck_units: "gatherText deck = [js ''Ders '' @ [0x15F], js ''Son'']"
  by (simp add: deck_def scan_eval)

lemma deck_names: "distinct (map entryName deck)"
  by (simp add: deck_def js_def)


text \<open>
  Claim C2. For every translation map and every container (with unique part names),
  reconstruction writes, into the unit of every id \<open>k\<close>, a text that is not empty,
  and for an id that the map does not hold it writes \<open>cleanText\<close> of the unit's
  original text: the rebuilt archive is the input with exactly these texts in its
  units.
\<close>

theorem reconstruct_fallback:
  assumes "distinct (map entryName z)" and "k < length (gatherText z)"
  shows "reconstruct tr z = substZip (newTexts tr 0 (gatherText z)) z
         \<and> newTexts tr 0 (gatherText z) ! k \<noteq> []
         \<and> (tr (showNat k) = None \<longrightarrow>
              newTexts tr 0 (gatherText z) ! k = cleanText (gatherText z ! k))"
proof -
  from assms(2) have "gatherText z ! k \<in> set (gatherText z)" by simp
  then have "gatherText z ! k \<noteq> []" by (simp add: gatherText_units)
  then have "newText tr k (gatherText z ! k) \<noteq> []" by (rule newText_nonempty)
  with assms show ?thesis
    by (simp add: reconstruct_subst nth_newTexts newText_absent)
qed

theorem reconstruct_fallback_witness:
  "distinct (map entryName deck)
   \<and> 0 < length (gatherText deck)
   \<and> (Map.empty(js ''1'' \<mapsto> js ''End'')) (showNat 0) = None
   \<and> reconstruct (Map.empty(js ''1'' \<mapsto> js ''End'')) deck
       = substZip (newTexts (Map.empty(js ''1'' \<mapsto> js ''End'')) 0 (gatherText deck)) deck
   \<and> newTexts (Map.empty(js ''1'' \<mapsto> js ''End'')) 0 (gatherText deck) ! 0 \<noteq> []
   \<and> newTexts (Map.empty(js ''1'' \<mapsto> js ''End'')) 0 (gatherText deck) ! 0
       = cleanText (gatherText deck ! 0)"
proof -
  have k: "0 < length (gatherText deck)" by (simp add: deck_units)
  have absent: "(Map.empty(js ''1'' \<mapsto> js ''End'')) (showNat 0) = None"
    by (simp add: showNat.simps digitChar_def js_def)
  note th = reconstruct_fallback [OF deck_names k, of "Map.empty(js ''1'' \<mapsto> js ''End'')"]
  from th have written: "reconstruct (Map.empty(js ''1'' \<mapsto> js ''End'')) deck
       = substZip (newTexts (Map.empty(js ''1'' \<mapsto> js ''End'')) 0 (gatherText deck)) deck"
    by (rule conjunct1)
  from th have filled: "newTexts (Map.empty(js ''1'' \<mapsto> js ''End'')) 0 (gatherText deck) ! 0 \<noteq> []"
    by blast
  from th absent have original: "newTexts (Map.empty(js ''1'' \<mapsto> js ''End'')) 0 (gatherText deck) ! 0
       = cleanText (gatherText deck ! 0)"
    by blast
  from deck_names k absent written filled original show ?thesis by (intro conjI)
qed



section \<open>Properties of the response parser\<close>








text \<open>
  A line overwrites the entry of its key and leaves every other entry alone.
\<close>

lemma storeLines_Nil [simp]: "storeLines tr [] = tr"
  by (simp add: storeLines_def)

lemma storeLines_Cons [simp]: "storeLines tr (l # ls) = storeLines (storeLine tr l) ls"
  by (simp add: storeLines_def)








section \<open>The pass-through round trip\<close>




































section \<open>Progress of a run of 120 units\<close>

text \<open>
  The three iterations of the loop for 120 units.
\<close>

lemma percentage_120:
  assumes "length allText = 120"
  shows "totalChunks allText = 3"
    and "percentage allText 0 = 33"
    and "percentage allText 50 = 67"
    and "percentage allText 100 = 100"
  using assms by (simp_all add: totalChunks_def percentage_def chunkSize_def round_def Let_def)

lemma progressMessage_values:
  "progressMessage 33 = js ''Translating content... (33%)''"
  "progressMessage 67 = js ''Translating content... (67%)''"
  "progressMessage 100 = js ''Translating content... (100%)''"
  by (simp_all add: progressMessage_def showNat.simps digitChar_def js_def)

lemma translateChunks_120:
  assumes len: "length allText = 120"
    and r1: "groq (TranslateList targetLanguage) (promptText 0 (take 50 (drop 0 allText))) = Inr r1"
    and r2: "groq (TranslateList targetLanguage) (promptText 50 (take 50 (drop 50 allText))) = Inr r2"
    and r3: "groq (TranslateList targetLanguage) (promptText 100 (take 50 (drop 100 allText))) = Inr r3"
  shows "translateChunks groq targetLanguage allText 0 tr jobs
           = (jobs @ [(Translating, js ''Translating content... (33%)''),
                      (Translating, js ''Translating content... (67%)''),
                      (Translating, js ''Translating content... (100%)'')],
              Inr (storeLines (storeLines (storeLines tr
                     (splitOn 0x0A r1)) (splitOn 0x0A r2)) (splitOn 0x0A r3)))"
proof -
  let ?j1 = "jobs @ [(Translating, progressMessage 33)]"
  let ?j2 = "jobs @ [(Translating, progressMessage 33), (Translating, progressMessage 67)]"
  let ?j3 = "jobs @ [(Translating, progressMessage 33), (Translating, progressMessage 67),
                     (Translating, progressMessage 100)]"
  let ?t1 = "storeLines tr (splitOn 0x0A r1)"
  let ?t2 = "storeLines ?t1 (splitOn 0x0A r2)"
  let ?t3 = "storeLines ?t2 (splitOn 0x0A r3)"
  note p = percentage_120 [OF len]
  have s3: "translateChunks groq targetLanguage allText 150 ?t3 ?j3 = (?j3, Inr ?t3)"
    by (subst translateChunks.simps) (simp add: len)
  have s2: "translateChunks groq targetLanguage allText 100 ?t2 ?j2 = (?j3, Inr ?t3)"
    using r3 by (subst translateChunks.simps) (simp add: len p s3 chunkSize_def Let_def)
  have s1: "translateChunks groq targetLanguage allText 50 ?t1 ?j1 = (?j3, Inr ?t3)"
    using r2 by (subst translateChunks.simps) (simp add: len p s2 chunkSize_def Let_def)
  have "translateChunks groq targetLanguage allText 0 tr jobs = (?j3, Inr ?t3)"
    using r1 by (subst translateChunks.simps) (simp add: len p s1 chunkSize_def Let_def)
  then show ?thesis by (simp add: progressMessage_values)
qed

lemma chunks_120:
  assumes len: "length (allText :: jstring list) = 120"
  shows "map length [take 50 (drop 0 allText), take 50 (drop 50 allText),
                     take 50 (drop 100 allText)] = [50, 50, 20]"
    and "take 50 (drop 0 allText) @ take 50 (drop 50 allText) @ take 50 (drop 100 allText)
           = allText"
proof -
  show "map length [take 50 (drop 0 allText), take 50 (drop 50 allText),
                    take 50 (drop 100 allText)] = [50, 50, 20]"
    by (simp add: len)
  have "take 50 (drop 100 allText) = drop 100 allText" by (simp add: len)
  moreover have "take 50 (drop 50 allText) @ drop 100 allText = drop 50 allText"
    using append_take_drop_id [of 50 "drop 50 allText"] by simp
  ultimately show "take 50 (drop 0 allText) @ take 50 (drop 50 allText)
                     @ take 50 (drop 100 allText) = allText"
    by simp
qed

text \<open>
  The deck of 120 slides has 120 units.
\<close>

lemma isSlide_slideNo: "isSlide (entryName (slideNo n))"
  by (simp add: slideNo_def isSlide_def startsWith_iff endsWith_def)

lemma slideTexts_slideNo: "slideTexts (entryData (slideNo n)) = [js ''a'']"
  by (simp add: slideNo_def scan_eval)

lemma gatherText_slides: "gatherText (map slideNo ns) = map (\<lambda>n. js ''a'') ns"
  by (induction ns) (simp_all add: isSlide_slideNo slideTexts_slideNo)

lemma deck120_units: "length (gatherText deck120) = 120"
  by (simp add: deck120_def gatherText_slides)

text \<open>
  Claim C7. For an archive with exactly 120 text units and a service that answers the
  three calls, the chunks are the units 0 to 49, 50 to 99 and 100 to 119 in order, of
  sizes 50, 50 and 20, and the records written for the job during translation carry
  the percentages 33, 67 and 100, each the rounded value of batch number by number of
  batches times 100.
\<close>

theorem progress_120_units:
  assumes zip: "readZip file = Inr zipEntries"
    and len: "length (gatherText zipEntries) = 120"
    and r1: "groq (TranslateList targetLanguage)
               (promptText 0 (take 50 (drop 0 (gatherText zipEntries)))) = Inr r1"
    and r2: "groq (TranslateList targetLanguage)
               (promptText 50 (take 50 (drop 50 (gatherText zipEntries)))) = Inr r2"
    and r3: "groq (TranslateList targetLanguage)
               (promptText 100 (take 50 (drop 100 (gatherText zipEntries)))) = Inr r3"
  shows "fst (handlePptxTranslation readZip groq file targetLanguage)
           = [(Extracting, js ''Extracting slides...''),
              (Translating, js ''Translating content... (33%)''),
              (Translating, js ''Translating content... (67%)''),
              (Translating, js ''Translating content... (100%)''),
              (Generating, js ''Reconstructing the slides...''),
              (Completed, js ''Slide translation ready!'')]
         \<and> snd (handlePptxTranslation readZip groq file targetLanguage)
             = Inr (reconstruct
                      (storeLines (storeLines (storeLines Map.empty
                         (splitOn 0x0A r1)) (splitOn 0x0A r2)) (splitOn 0x0A r3))
                      zipEntries)
         \<and> map length [take 50 (drop 0 (gatherText zipEntries)),
                         take 50 (drop 50 (gatherText zipEntries)),
                         take 50 (drop 100 (gatherText zipEntries))] = [50, 50, 20]
         \<and> take 50 (drop 0 (gatherText zipEntries)) @ take 50 (drop 50 (gatherText zipEntries))
             @ take 50 (drop 100 (gatherText zipEntries)) = gatherText zipEntries
         \<and> totalChunks (gatherText zipEntries) = 3
         \<and> map (percentage (gatherText zipEntries)) [0, 50, 100]
             = map (\<lambda>batch. round (real batch / real_of_int (totalChunks (gatherText zipEntries))
                                      * 100)) [1, 2, 3]
         \<and> map (percentage (gatherText zipEntries)) [0, 50, 100] = [33, 67, 100]"
proof -
  let ?all = "gatherText zipEntries"
  note p = percentage_120 [OF len]
  note run = translateChunks_120 [where groq = groq and allText = ?all
      and tr = Map.empty and jobs = "[(Extracting, js ''Extracting slides...'')]",
      OF len r1 r2 r3]
  from len have ne: "length ?all \<noteq> 0" by simp
  have jobs: "fst (handlePptxTranslation readZip groq file targetLanguage)
           = [(Extracting, js ''Extracting slides...''),
              (Translating, js ''Translating content... (33%)''),
              (Translating, js ''Translating content... (67%)''),
              (Translating, js ''Translating content... (100%)''),
              (Generating, js ''Reconstructing the slides...''),
              (Completed, js ''Slide translation ready!'')]"
    using ne by (simp add: handlePptxTranslation_def zip run Let_def)
  have result: "snd (handlePptxTranslation readZip groq file targetLanguage)
             = Inr (reconstruct
                      (storeLines (storeLines (storeLines Map.empty
                         (splitOn 0x0A r1)) (splitOn 0x0A r2)) (splitOn 0x0A r3))
                      zipEntries)"
    using ne by (simp add: handlePptxTranslation_def zip run Let_def)
  have rounds: "map (\<lambda>batch. round (real batch / real_of_int (totalChunks ?all) * 100))
                  [1, 2, 3] = [33, 67, 100]"
    by (simp add: p round_def)
  have pcts: "map (percentage ?all) [0, 50, 100] = [33, 67, 100]"
    by (simp add: p)
  from jobs result chunks_120 [OF len] p(1) rounds pcts show ?thesis
    by (intro conjI) simp_all
qed

theorem progress_120_units_witness:
  "length (gatherText deck120) = 120
   \<and> fst (handlePptxTranslation Inr echo deck120 (js ''Turkish''))
       = [(Extracting, js ''Extracting slides...''),
          (Translating, js ''Translating content... (33%)''),
          (Translating, js ''Translating content... (67%)''),
          (Translating, js ''Translating content... (100%)''),
          (Generating, js ''Reconstructing the slides...''),
          (Completed, js ''Slide translation ready!'')]"
proof -
  have e: "echo (TranslateList (js ''Turkish'')) p = Inr p" for p by (simp add: echo_def)
  note th = progress_120_units [where readZip = Inr and zipEntries = deck120 and groq = echo
      and targetLanguage = "js ''Turkish''", OF refl deck120_units e e e]
  from deck120_units th [THEN conjunct1] show ?thesis by (rule conjI)
qed

section \<open>Properties of the layout\<close>







lemma cleanText_Nil [simp]: "cleanText [] = []"
  by (simp add: cleanText_def)




lemma wordsOf_Nil [simp]: "wordsOf [] = []"
  by (simp add: wordsOf_def)


lemma drawnWords_append [simp]: "drawnWords (xs @ ys) = drawnWords xs @ drawnWords ys"
  by (simp add: drawnWords_def)

lemma drawnWords_Nil [simp]: "drawnWords [] = []"
  by (simp add: drawnWords_def)

lemma draws_newPageIfNeeded [simp]: "drawn (newPageIfNeeded h st) = drawn st"
  by (simp add: newPageIfNeeded_def)






lemmas layout_eval = newPageIfNeeded_def drawLine_def charWidth_def fontSize_def margin_def
  js_def cleanText_def cleanChar_def charMap_def charTable_def Let_def

lemma wide_word_layout:
  "layoutLines charWidth 60 130 [js ''cccccccccccccccccc dd'']
     \<lparr>pageIndex = 0, cursorY = 130 - margin, drawn = []\<rparr>
   = Inr \<lparr>pageIndex = 1, cursorY = 58,
          drawn = [\<lparr>drawPage = 0, drawX = 50, drawY = 80, drawText = []\<rparr>,
                   \<lparr>drawPage = 0, drawX = 50, drawY = 63,
                     drawText = js ''cccccccccccccccccc''\<rparr>,
                   \<lparr>drawPage = 1, drawX = 50, drawY = 80, drawText = js ''dd''\<rparr>]\<rparr>"
  by (simp add: layout_eval)



text \<open>
  The invariant holds initially, the page check keeps it and puts the cursor at or
  above \<open>margin + fontSize\<close>, and a draw at such a cursor keeps it.
\<close>

lemma cursorInv_newPage:
  assumes "cursorInv height st" and "margin * 2 + fontSize \<le> height"
  shows "cursorInv height (newPageIfNeeded height st)
         \<and> margin + fontSize \<le> cursorY (newPageIfNeeded height st)"
proof (cases "cursorY st < margin + fontSize")
  case False
  with assms show ?thesis by (simp add: newPageIfNeeded_def)
next
  case True
  with assms(2) have ne: "drawn st \<noteq> []"
    using assms(1) by (auto simp: cursorInv_def)
  with assms(1) obtain advance where adv: "advance \<in> {fontSize + 5, fontSize + 10}"
    and pos: "(pageIndex st, cursorY st) = (drawPage (last (drawn st)), drawY (last (drawn st)) - advance)
              \<or> afterDraw height advance (last (drawn st)) (pageIndex st, cursorY st)"
    by (auto simp: cursorInv_def)
  from pos True assms(2) have "pageIndex st = drawPage (last (drawn st))"
    and "drawY (last (drawn st)) - advance < margin + fontSize"
    by (auto simp: afterDraw_def split: if_splits)
  then have "afterDraw height advance (last (drawn st)) (Suc (pageIndex st), height - margin)"
    by (simp add: afterDraw_def)
  with adv ne assms True show ?thesis
    by (auto simp: cursorInv_def newPageIfNeeded_def)
qed

lemma cursorInv_draw:
  assumes "cursorInv height st" and "margin + fontSize \<le> cursorY st"
    and "advance \<in> {fontSize + 5, fontSize + 10}"
  shows "cursorInv height ((drawLine cl st)\<lparr>cursorY := cursorY st - advance\<rparr>)"
proof -
  let ?d = "\<lparr>drawPage = pageIndex st, drawX = margin, drawY = cursorY st, drawText = cleanText cl\<rparr>"
  have next_ok: "nextDraw height (last (drawn st)) ?d" if ne: "drawn st \<noteq> []"
  proof -
    from assms(1) ne obtain a where a: "a \<in> {fontSize + 5, fontSize + 10}"
      and pos: "(pageIndex st, cursorY st) = (drawPage (last (drawn st)), drawY (last (drawn st)) - a)
                \<or> afterDraw height a (last (drawn st)) (pageIndex st, cursorY st)"
      by (auto simp: cursorInv_def)
    from pos assms(2) have "afterDraw height a (last (drawn st)) (pageIndex st, cursorY st)"
      by (auto simp: afterDraw_def)
    with a show ?thesis by (auto simp: nextDraw_def)
  qed
  have succ: "successively (nextDraw height) (drawn st @ [?d])"
    using assms(1) next_ok
    by (cases "drawn st = []") (auto simp: cursorInv_def successively_append_iff)
  have first: "case drawn st @ [?d] of [] \<Rightarrow> True
               | d # ds \<Rightarrow> drawPage d = 0 \<and> drawY d = height - margin"
    using assms(1) by (cases "drawn st") (auto simp: cursorInv_def)
  from assms succ first show ?thesis
    by (auto simp: cursorInv_def drawLine_def)
qed

lemma cursorInv_words:
  assumes "cursorInv height st" and "margin + fontSize \<le> cursorY st"
    and "margin * 2 + fontSize \<le> height"
    and "layoutWords font maxWidth height ws cl st = Inr (cl', st')"
  shows "cursorInv height st' \<and> margin + fontSize \<le> cursorY st'"
  using assms
proof (induction ws arbitrary: cl st)
  case Nil
  then show ?case by simp
next
  case (Cons word ws)
  let ?test = "if cl \<noteq> [] then cl @ js '' '' @ word else word"
  let ?measured = "case font ?test fontSize of Inr w \<Rightarrow> Inr w
                   | Inl e \<Rightarrow> font (if cl \<noteq> [] then cl else word) fontSize"
  from Cons.prems(4) obtain testWidth where m: "?measured = Inr testWidth"
    by (cases ?measured) (simp_all add: Let_def)
  show ?case
  proof (cases "testWidth > maxWidth")
    case False
    with Cons.prems(4) m have "layoutWords font maxWidth height ws ?test st = Inr (cl', st')"
      by (simp add: Let_def)
    from Cons.IH [OF Cons.prems(1,2,3) this] show ?thesis .
  next
    case True
    let ?st = "newPageIfNeeded height ((drawLine cl st)\<lparr>cursorY := cursorY st - (fontSize + 5)\<rparr>)"
    from True Cons.prems(4) m have run: "layoutWords font maxWidth height ws word ?st = Inr (cl', st')"
      by (simp add: Let_def)
    have "cursorInv height ((drawLine cl st)\<lparr>cursorY := cursorY st - (fontSize + 5)\<rparr>)"
      using Cons.prems(1,2) by (rule cursorInv_draw) simp
    from cursorInv_newPage [OF this Cons.prems(3)]
    have "cursorInv height ?st" "margin + fontSize \<le> cursorY ?st" by simp_all
    from Cons.IH [OF this Cons.prems(3) run] show ?thesis .
  qed
qed

lemma cursorInv_lines:
  assumes "cursorInv height st" and "margin * 2 + fontSize \<le> height"
    and "layoutLines font maxWidth height lines st = Inr st'"
  shows "cursorInv height st'"
  using assms
proof (induction lines arbitrary: st)
  case Nil
  then show ?case by simp
next
  case (Cons line lines)
  let ?st1 = "newPageIfNeeded height st"
  from Cons.prems(3) obtain cl st2 where
    words: "layoutWords font maxWidth height (splitOn 0x20 line) [] ?st1 = Inr (cl, st2)"
    by (cases "layoutWords font maxWidth height (splitOn 0x20 line) [] ?st1") auto
  let ?st3 = "if cl \<noteq> [] then (drawLine cl st2)\<lparr>cursorY := cursorY st2 - (fontSize + 10)\<rparr> else st2"
  from Cons.prems(3) words have run: "layoutLines font maxWidth height lines ?st3 = Inr st'"
    by simp
  from cursorInv_newPage [OF Cons.prems(1,2)]
  have "cursorInv height ?st1" "margin + fontSize \<le> cursorY ?st1" by simp_all
  from cursorInv_words [OF this Cons.prems(2) words]
  have st2: "cursorInv height st2" "margin + fontSize \<le> cursorY st2" by simp_all
  then have "cursorInv height ((drawLine cl st2)\<lparr>cursorY := cursorY st2 - (fontSize + 10)\<rparr>)"
    by (rule cursorInv_draw) simp
  with st2 have "cursorInv height ?st3" by simp
  from Cons.IH [OF this Cons.prems(2) run] show ?case .
qed

lemma nextDraw_decreasing:
  "nextDraw height d d' \<Longrightarrow> drawPage d' = drawPage d \<Longrightarrow> drawY d' < drawY d"
  by (auto simp: nextDraw_def afterDraw_def fontSize_def split: if_splits)

text \<open>
  Claim C5. On a page that is at least \<open>2 * margin + fontSize\<close> high, for every text:
  between consecutive calls on the same page the vertical position strictly decreases;
  every call draws at or above \<open>margin + fontSize\<close>, hence above the bottom margin;
  and whenever the cursor, advanced after a call, is below \<open>margin + fontSize\<close>, the
  next call draws on a new page at \<open>height - margin\<close>, and otherwise on the same page
  at the advanced cursor. The first call draws on the first page at \<open>height - margin\<close>.
\<close>

theorem layout_cursor:
  assumes "margin * 2 + fontSize \<le> height"
    and "layoutLines font maxWidth height lines \<lparr>pageIndex = 0, cursorY = height - margin, drawn = []\<rparr>
           = Inr st"
  shows "successively (\<lambda>d d'. drawPage d' = drawPage d \<longrightarrow> drawY d' < drawY d) (drawn st)
         \<and> (\<forall>d \<in> set (drawn st). margin \<le> drawY d \<and> margin + fontSize \<le> drawY d)
         \<and> successively (nextDraw height) (drawn st)
         \<and> (case drawn st of [] \<Rightarrow> True
             | d # ds \<Rightarrow> drawPage d = 0 \<and> drawY d = height - margin)"
proof -
  have "cursorInv height \<lparr>pageIndex = 0, cursorY = height - margin, drawn = []\<rparr>"
    by (simp add: cursorInv_def)
  from cursorInv_lines [OF this assms] have inv: "cursorInv height st" .
  then have s: "successively (nextDraw height) (drawn st)"
    by (simp add: cursorInv_def)
  then have "successively (\<lambda>d d'. drawPage d' = drawPage d \<longrightarrow> drawY d' < drawY d) (drawn st)"
    by (rule successively_mono) (auto dest: nextDraw_decreasing)
  moreover from inv have "\<forall>d \<in> set (drawn st). margin \<le> drawY d \<and> margin + fontSize \<le> drawY d"
    by (auto simp: cursorInv_def fontSize_def)
  ultimately show ?thesis using inv s by (simp add: cursorInv_def)
qed

theorem layout_cursor_witness:
  "margin * 2 + fontSize \<le> 130
   \<and> layoutLines charWidth 60 130 [js ''cccccccccccccccccc dd'']
        \<lparr>pageIndex = 0, cursorY = 130 - margin, drawn = []\<rparr>
      = Inr \<lparr>pageIndex = 1, cursorY = 58,
             drawn = [\<lparr>drawPage = 0, drawX = 50, drawY = 80, drawText = []\<rparr>,
                      \<lparr>drawPage = 0, drawX = 50, drawY = 63,
                        drawText = js ''cccccccccccccccccc''\<rparr>,
                      \<lparr>drawPage = 1, drawX = 50, drawY = 80, drawText = js ''dd''\<rparr>]\<rparr>
   \<and> successively (nextDraw 130)
        [\<lparr>drawPage = 0, drawX = 50, drawY = 80, drawText = []\<rparr>,
         \<lparr>drawPage = 0, drawX = 50, drawY = 63, drawText = js ''cccccccccccccccccc''\<rparr>,
         \<lparr>drawPage = 1, drawX = 50, drawY = 80, drawText = js ''dd''\<rparr>]"
proof -
  have h: "margin * 2 + fontSize \<le> 130" by (simp add: margin_def fontSize_def)
  note th = layout_cursor [OF h wide_word_layout]
  from th [THEN conjunct2, THEN conjunct2, THEN conjunct1]
  have "successively (nextDraw 130)
        [\<lparr>drawPage = 0, drawX = 50, drawY = 80, drawText = []\<rparr>,
         \<lparr>drawPage = 0, drawX = 50, drawY = 63, drawText = js ''cccccccccccccccccc''\<rparr>,
         \<lparr>drawPage = 1, drawX = 50, drawY = 80, drawText = js ''dd''\<rparr>]"
    by (simp only: layout.select_convs)
  with h wide_word_layout show ?thesis by (intro conjI)
qed

section \<open>Properties of the route\<close>

text \<open>
  The name \<open>notes.txt\<close> has neither suffix.
\<close>

lemma notes_name:
  "\<not> endsWith (toLowerCase (js ''notes.txt'')) (js ''.pptx'')"
  "\<not> endsWith (toLowerCase (js ''notes.txt'')) (js ''.pdf'')"
  by (simp_all add: toLowerCase_def endsWith_def js_def)

text \<open>
  Claim C4, as the code has it. Every upload whose name does not end in \<open>.pptx\<close>
  (in any letter case) is processed in the PDF mode: the route answers with the
  document the PDF handler lays out, or with the error that handler ends with. There
  is no error for an unsupported format.
\<close>

theorem route_two_modes:
  assumes "reqFile req = Some (originalname, file)"
    and "\<not> endsWith (toLowerCase originalname) (js ''.pptx'')"
  shows "translateRoute readZip pdfParse groq font pageSize req
           = (case handlePdfTranslation pdfParse groq font pageSize file (requestLanguage req) of
                (jobs, Inl e) \<Rightarrow> failWith ((Starting, js ''Initializing...'') # jobs) e
              | (jobs, Inr d) \<Rightarrow> ((Starting, js ''Initializing...'') # jobs, PdfFile d))"
  using assms by (simp add: translateRoute_def Let_def)

theorem route_two_modes_witness:
  "reqFile notesRequest = Some (js ''notes.txt'', js ''Hello world'')
   \<and> \<not> endsWith (toLowerCase (js ''notes.txt'')) (js ''.pptx'')
   \<and> translateRoute noZip textLayer echo charWidth (595.28, 841.89) notesRequest
       = (case handlePdfTranslation textLayer echo charWidth (595.28, 841.89)
                 (js ''Hello world'') (requestLanguage notesRequest) of
            (jobs, Inl e) \<Rightarrow> failWith ((Starting, js ''Initializing...'') # jobs) e
          | (jobs, Inr d) \<Rightarrow> ((Starting, js ''Initializing...'') # jobs, PdfFile d))"
proof -
  have f: "reqFile notesRequest = Some (js ''notes.txt'', js ''Hello world'')"
    by (simp add: notesRequest_def)
  from route_two_modes [OF f notes_name(1)] f notes_name(1)
  show ?thesis by (intro conjI)
qed

text \<open>
  Claim C4, as stated, fails: an upload named \<open>notes.txt\<close> is handed to the PDF
  handler. When the parser returns a text layer the route answers with a document; when
  the parser throws, the route answers with the parser's message.
\<close>

theorem route_unsupported_counterexample:
  "\<not> endsWith (toLowerCase (js ''notes.txt'')) (js ''.pptx'')
   \<and> \<not> endsWith (toLowerCase (js ''notes.txt'')) (js ''.pdf'')
   \<and> snd (translateRoute noZip textLayer echo charWidth (595.28, 841.89) notesRequest)
       = PdfFile \<lparr>pageIndex = 0, cursorY = 769.89,
           drawn = [\<lparr>drawPage = 0, drawX = 50, drawY = 791.89,
                     drawText = js ''Hello world''\<rparr>]\<rparr>
   \<and> snd (translateRoute noZip noPdf echo charWidth (595.28, 841.89) notesRequest)
       = ServerError (js ''An error occurred during translation: Invalid PDF structure'')"
proof -
  have ok: "snd (translateRoute noZip textLayer echo charWidth (595.28, 841.89) notesRequest)
       = PdfFile \<lparr>pageIndex = 0, cursorY = 769.89,
           drawn = [\<lparr>drawPage = 0, drawX = 50, drawY = 791.89,
                     drawText = js ''Hello world''\<rparr>]\<rparr>"
    by (simp add: translateRoute_def notesRequest_def requestLanguage_def toLowerCase_def
        endsWith_def handlePdfTranslation_def textLayer_def trim_def isSpace_def
        isWhiteSpace_def isLineTerminator_def echo_def layout_eval)
  have broken: "snd (translateRoute noZip noPdf echo charWidth (595.28, 841.89) notesRequest)
       = ServerError (js ''An error occurred during translation: Invalid PDF structure'')"
    by (simp add: translateRoute_def notesRequest_def requestLanguage_def toLowerCase_def
        endsWith_def handlePdfTranslation_def noPdf_def failWith_def errorMessage_def js_def)
  from notes_name ok broken show ?thesis by (intro conjI)
qed

end
